theory Spec2Isabelle
  imports Complex_Main "HOL-Library.Multiset" "HOL-Library.Word"
begin

section \<open>The image data generator: a model of \<^verbatim>\<open>data_generator.py\<close>\<close>

text \<open>
  The class \<^verbatim>\<open>ImageDataGenerator\<close> reads a manifest of image paths and labels, shuffles
  the two lists together, and maps a parsing function over the samples. Exceptions are
  values of the type \<open>error\<close>; a function that can raise returns \<open>error + 'a\<close>.
  Strings are lists of characters; the manifest is taken as ASCII text.
\<close>

datatype error =
    IndexError
  | ValueError
  | FileNotFoundError
  | NotFoundError
  | InvalidArgumentError

subsection \<open>The Python library functions the loader calls\<close>

text \<open>
  \<^verbatim>\<open>s.split(sep)\<close> with a one-character separator: the string is cut at every
  occurrence of the separator, two separators in a row give an empty piece, and the
  result always has at least one piece.
\<close>

fun py_split :: "char \<Rightarrow> string \<Rightarrow> string list" where
  "py_split sep [] = [[]]"
| "py_split sep (c # cs) =
     (if c = sep then [] # py_split sep cs
      else (case py_split sep cs of
              [] \<Rightarrow> [[c]]
            | w # ws \<Rightarrow> (c # w) # ws))"

text \<open>
  \<^verbatim>\<open>f.readlines()\<close>: the text is cut after every newline, and each line keeps its
  newline; a last line without a newline is a line too.
\<close>

fun readlines :: "string \<Rightarrow> string list" where
  "readlines [] = []"
| "readlines (c # cs) =
     (if c = CHR 0x0A then [c] # readlines cs
      else (case readlines cs of
              [] \<Rightarrow> [[c]]
            | l # ls \<Rightarrow> (c # l) # ls))"

text \<open>
  \<^verbatim>\<open>os.path.join(a, b)\<close> of \<^verbatim>\<open>posixpath\<close>: an absolute \<open>b\<close> replaces
  \<open>a\<close>; otherwise \<open>b\<close> is appended, after a slash unless \<open>a\<close> is empty or ends
  with one.
\<close>

definition path_join :: "string \<Rightarrow> string \<Rightarrow> string" where
  "path_join a b =
     (if b \<noteq> [] \<and> hd b = CHR ''/'' then b
      else if a = [] \<or> last a = CHR ''/'' then a @ b
      else a @ ''/'' @ b)"

text \<open>
  \<^verbatim>\<open>int(s)\<close> of Python 3 on an ASCII string: white space at both ends is dropped
  (tab, line feed, vertical tab, form feed, carriage return and the space, the
  characters 9 to 13 and 32); then comes an optional sign and a run of decimal digits,
  where a single underscore may stand between two digits. Anything else raises
  \<^verbatim>\<open>ValueError\<close>, here \<open>None\<close>.
\<close>

definition is_space :: "char \<Rightarrow> bool" where
  "is_space c =
     (let n = (of_char c :: nat) in (9 \<le> n \<and> n \<le> 13) \<or> n = 32)"

definition is_digit :: "char \<Rightarrow> bool" where
  "is_digit c = (let n = (of_char c :: nat) in 48 \<le> n \<and> n \<le> 57)"

definition digit_val :: "char \<Rightarrow> int" where
  "digit_val c = int (of_char c) - 48"

definition strip :: "string \<Rightarrow> string" where
  "strip s = rev (dropWhile is_space (rev (dropWhile is_space s)))"

fun digits_acc :: "int \<Rightarrow> string \<Rightarrow> int option" where
  "digits_acc a [] = Some a"
| "digits_acc a [c] = (if is_digit c then Some (10 * a + digit_val c) else None)"
| "digits_acc a (c # d # cs) =
     (if is_digit c then digits_acc (10 * a + digit_val c) (d # cs)
      else if c = CHR ''_'' \<and> is_digit d then digits_acc a (d # cs)
      else None)"

definition int_digits :: "string \<Rightarrow> int option" where
  "int_digits s =
     (case s of
        [] \<Rightarrow> None
      | c # cs \<Rightarrow> if is_digit c then digits_acc 0 s else None)"

definition py_int :: "string \<Rightarrow> int option" where
  "py_int s =
     (case strip s of
        [] \<Rightarrow> None
      | c # cs \<Rightarrow>
          if c = CHR ''-'' then map_option uminus (int_digits cs)
          else if c = CHR ''+'' then int_digits cs
          else int_digits (c # cs))"

subsection \<open>The manifest loader\<close>

text \<open>
  The two lists the object holds after \<^verbatim>\<open>_read_txt_file\<close>. The file system is a map
  from a file name to the text of the file, as the text layer delivers it.
\<close>

record dataset =
  img_paths :: "string list"
  labels :: "int list"

text \<open>
  The body of the loop of \<^verbatim>\<open>_read_txt_file\<close>: \<^verbatim>\<open>items[0]\<close> always exists,
  \<^verbatim>\<open>items[1]\<close> raises \<^verbatim>\<open>IndexError\<close> when the line has no space, and
  \<^verbatim>\<open>int\<close> raises \<^verbatim>\<open>ValueError\<close>. The first exception ends the loop.
\<close>

fun read_loop :: "string \<Rightarrow> string list \<Rightarrow> dataset \<Rightarrow> error + dataset" where
  "read_loop dataroot [] ds = Inr ds"
| "read_loop dataroot (line # lines) ds =
     (case py_split CHR '' '' line of
        p # q # rest \<Rightarrow>
          (case py_int q of
             None \<Rightarrow> Inl ValueError
           | Some n \<Rightarrow>
               read_loop dataroot lines
                 \<lparr>img_paths = img_paths ds @ [path_join dataroot p],
                  labels = labels ds @ [n]\<rparr>)
      | _ \<Rightarrow> Inl IndexError)"

definition read_txt_file ::
  "(string \<rightharpoonup> string) \<Rightarrow> string \<Rightarrow> string \<Rightarrow> error + dataset" where
  "read_txt_file fs txt_file dataroot =
     (case fs txt_file of
        None \<Rightarrow> Inl FileNotFoundError
      | Some content \<Rightarrow>
          read_loop dataroot (readlines content) \<lparr>img_paths = [], labels = []\<rparr>)"

text \<open>
  \<^verbatim>\<open>_shuffle_lists\<close>: the two lists are rebuilt by reading both at every index of
  the permutation, in its order. The permutation that \<^verbatim>\<open>np.random.permutation\<close>
  draws is an input of the model. Reading a list out of range raises
  \<^verbatim>\<open>IndexError\<close>.
\<close>

fun shuffle_loop :: "nat list \<Rightarrow> string list \<Rightarrow> int list \<Rightarrow> dataset \<Rightarrow> error + dataset" where
  "shuffle_loop [] path labs ds = Inr ds"
| "shuffle_loop (i # perm) path labs ds =
     (if i < length path then
        (if i < length labs then
           shuffle_loop perm path labs
             \<lparr>img_paths = img_paths ds @ [path ! i], labels = labels ds @ [labs ! i]\<rparr>
         else Inl IndexError)
      else Inl IndexError)"

definition shuffle_lists :: "nat list \<Rightarrow> dataset \<Rightarrow> error + dataset" where
  "shuffle_lists permutation ds =
     shuffle_loop permutation (img_paths ds) (labels ds) \<lparr>img_paths = [], labels = []\<rparr>"

subsection \<open>The tensor operations the parsing functions call\<close>

text \<open>
  An image tensor is a list of rows, a row a list of pixels, a pixel the list of its
  channel values. The entries of a float tensor are real numbers: rounding is not
  modelled. A decoded image has entries of eight bits.
\<close>

type_synonym 'a tensor3 = "'a list list list"

definition has_shape :: "nat \<Rightarrow> nat \<Rightarrow> nat \<Rightarrow> 'a tensor3 \<Rightarrow> bool" where
  "has_shape h w c x =
     (length x = h \<and> (\<forall>row \<in> set x. length row = w \<and> (\<forall>px \<in> set row. length px = c)))"

definition IMAGENET_MEAN :: "real list" where
  "IMAGENET_MEAN = [123.68, 116.779, 103.939]"

text \<open>
  \<^verbatim>\<open>tf.one_hot(label, depth)\<close> for a scalar label of type int32: position \<open>i\<close> of
  the result is 1 when \<open>i\<close> is the label and 0 otherwise, so a label outside
  \<open>[0, depth)\<close> gives the vector of zeros. A negative depth is refused.
\<close>

definition tf_one_hot :: "32 word \<Rightarrow> int \<Rightarrow> error + real list" where
  "tf_one_hot label depth =
     (if depth < 0 then Inl InvalidArgumentError
      else Inr (map (\<lambda>i. if sint label = int i then 1 else 0) [0 ..< nat depth]))"

definition tf_read_file :: "(string \<rightharpoonup> string) \<Rightarrow> string \<Rightarrow> error + string" where
  "tf_read_file fs filename =
     (case fs filename of None \<Rightarrow> Inl NotFoundError | Some contents \<Rightarrow> Inr contents)"

text \<open>
  \<^verbatim>\<open>tf.image.resize_images(images, [new_height, new_width])\<close> with its defaults:
  bilinear interpolation without aligned corners. Output index \<open>i\<close> reads the input
  at the coordinate \<open>i * in_size / out_size\<close>, between the sample below it and the
  next one (the last one at the border). An image without pixels is refused.
\<close>

definition src_coord :: "nat \<Rightarrow> nat \<Rightarrow> nat \<Rightarrow> real" where
  "src_coord in_size out_size i = real i * (real in_size / real out_size)"

definition lower :: "nat \<Rightarrow> nat \<Rightarrow> nat \<Rightarrow> nat" where
  "lower in_size out_size i = nat \<lfloor>src_coord in_size out_size i\<rfloor>"

definition upper :: "nat \<Rightarrow> nat \<Rightarrow> nat \<Rightarrow> nat" where
  "upper in_size out_size i = min (lower in_size out_size i + 1) (in_size - 1)"

definition lerp :: "nat \<Rightarrow> nat \<Rightarrow> nat \<Rightarrow> real" where
  "lerp in_size out_size i = src_coord in_size out_size i - real (lower in_size out_size i)"

definition mix :: "real list \<Rightarrow> real list \<Rightarrow> real \<Rightarrow> real list" where
  "mix a b t = map2 (\<lambda>u v. u + (v - u) * t) a b"

definition resize_bilinear ::
  "real tensor3 \<Rightarrow> nat \<Rightarrow> nat \<Rightarrow> nat \<Rightarrow> nat \<Rightarrow> real tensor3" where
  "resize_bilinear img in_h in_w out_h out_w =
     map (\<lambda>y.
       map (\<lambda>x.
         mix (mix (img ! lower in_h out_h y ! lower in_w out_w x)
                  (img ! lower in_h out_h y ! upper in_w out_w x) (lerp in_w out_w x))
             (mix (img ! upper in_h out_h y ! lower in_w out_w x)
                  (img ! upper in_h out_h y ! upper in_w out_w x) (lerp in_w out_w x))
             (lerp in_h out_h y))
         [0 ..< out_w])
       [0 ..< out_h]"

definition to_float :: "8 word tensor3 \<Rightarrow> real tensor3" where
  "to_float img = map (map (map (\<lambda>v. real (unat v)))) img"

definition resize_images :: "8 word tensor3 \<Rightarrow> nat \<Rightarrow> nat \<Rightarrow> error + real tensor3" where
  "resize_images images new_height new_width =
     (case images of
        [] \<Rightarrow> Inl InvalidArgumentError
      | row # _ \<Rightarrow>
          if row = [] then Inl InvalidArgumentError
          else Inr (resize_bilinear (to_float images) (length images) (length row)
                      new_height new_width))"

text \<open>
  \<^verbatim>\<open>tf.subtract(x, v)\<close> with a vector \<open>v\<close>: the vector is subtracted from every
  pixel. \<^verbatim>\<open>x[:, :, ::-1]\<close> reverses every pixel, and
  \<^verbatim>\<open>tf.image.random_flip_left_right\<close> reverses every row when its draw is below
  one half.
\<close>

definition tf_subtract :: "real tensor3 \<Rightarrow> real list \<Rightarrow> real tensor3" where
  "tf_subtract x v = map (map (\<lambda>px. map2 (-) px v)) x"

definition reverse_channels :: "real tensor3 \<Rightarrow> real tensor3" where
  "reverse_channels x = map (map rev) x"

definition flip_left_right :: "real tensor3 \<Rightarrow> real tensor3" where
  "flip_left_right x = map rev x"

subsection \<open>Augmentation\<close>

text \<open>
  Every \<^verbatim>\<open>tf.random_uniform([], 0, 1)\<close> is an input of the model: \<open>outer\<close> is the
  draw of \<^verbatim>\<open>_parse_function_train\<close>, \<open>gate d k\<close> the draw of round \<open>k\<close> of the
  loop of \<^verbatim>\<open>augment\<close>, and \<open>inner d k\<close> the draw inside the transform of that
  round. A \<^verbatim>\<open>tf.cond\<close> runs the branch its condition selects. The list of
  transforms of \<^verbatim>\<open>augment\<close> holds \<^verbatim>\<open>flip\<close> alone; \<^verbatim>\<open>color\<close> and
  \<^verbatim>\<open>zoom\<close> are defined in the class and never called.
\<close>

record draws =
  outer :: real
  gate :: "nat \<Rightarrow> real"
  inner :: "nat \<Rightarrow> real"

definition flip :: "real \<Rightarrow> real tensor3 \<Rightarrow> real tensor3" where
  "flip u x = (if u < 0.5 then flip_left_right x else x)"

definition augmentations :: "(real \<Rightarrow> real tensor3 \<Rightarrow> real tensor3) list" where
  "augmentations = [flip]"

fun augment_loop ::
  "(real \<Rightarrow> real tensor3 \<Rightarrow> real tensor3) list \<Rightarrow> nat \<Rightarrow> draws \<Rightarrow> real tensor3 \<Rightarrow>
     real tensor3" where
  "augment_loop [] k d x = x"
| "augment_loop (f # fs) k d x =
     augment_loop fs (Suc k) d (if gate d k < 0.25 then f (inner d k) x else x)"

definition augment :: "draws \<Rightarrow> real tensor3 \<Rightarrow> real tensor3" where
  "augment d x = augment_loop augmentations 0 d x"

subsection \<open>The parsing functions\<close>

text \<open>
  The PNG decoder is a parameter: \<open>decode_png\<close> takes the bytes of a file to the
  decoded image or to an error. The file system maps a file name to its bytes.
\<close>

definition parse_function_inference ::
  "(string \<rightharpoonup> string) \<Rightarrow> (string \<Rightarrow> error + 8 word tensor3) \<Rightarrow> int \<Rightarrow>
     string \<Rightarrow> 32 word \<Rightarrow> error + real tensor3 \<times> real list" where
  "parse_function_inference fs decode_png num_classes filename label =
     (case tf_one_hot label num_classes of
        Inl e \<Rightarrow> Inl e
      | Inr one_hot \<Rightarrow>
     (case tf_read_file fs filename of
        Inl e \<Rightarrow> Inl e
      | Inr img_string \<Rightarrow>
     (case decode_png img_string of
        Inl e \<Rightarrow> Inl e
      | Inr img_decoded \<Rightarrow>
     (case resize_images img_decoded 227 227 of
        Inl e \<Rightarrow> Inl e
      | Inr img_resized \<Rightarrow>
          let img_centered = tf_subtract img_resized IMAGENET_MEAN;
              img_bgr = reverse_channels img_centered
          in Inr (img_bgr, one_hot)))))"

definition parse_function_train ::
  "(string \<rightharpoonup> string) \<Rightarrow> (string \<Rightarrow> error + 8 word tensor3) \<Rightarrow> int \<Rightarrow> draws \<Rightarrow>
     string \<Rightarrow> 32 word \<Rightarrow> error + real tensor3 \<times> real list" where
  "parse_function_train fs decode_png num_classes d filename label =
     (case tf_one_hot label num_classes of
        Inl e \<Rightarrow> Inl e
      | Inr one_hot \<Rightarrow>
     (case tf_read_file fs filename of
        Inl e \<Rightarrow> Inl e
      | Inr img_string \<Rightarrow>
     (case decode_png img_string of
        Inl e \<Rightarrow> Inl e
      | Inr img_decoded \<Rightarrow>
     (case resize_images img_decoded 227 227 of
        Inl e \<Rightarrow> Inl e
      | Inr img_resized \<Rightarrow>
          let img_centered = tf_subtract img_resized IMAGENET_MEAN;
              img_bgr = reverse_channels img_centered;
              img_bgr = (if outer d < 0.5 then augment d img_bgr else img_bgr)
          in Inr (img_bgr, one_hot)))))"

text \<open>
  The choice of the constructor between the two parsing functions: any other mode raises
  \<^verbatim>\<open>ValueError\<close>.
\<close>

definition parse_function ::
  "string \<Rightarrow> (string \<rightharpoonup> string) \<Rightarrow> (string \<Rightarrow> error + 8 word tensor3) \<Rightarrow> int \<Rightarrow>
     draws \<Rightarrow> string \<Rightarrow> 32 word \<Rightarrow> error + real tensor3 \<times> real list" where
  "parse_function mode fs decode_png num_classes d filename label =
     (if mode = ''training'' then
        parse_function_train fs decode_png num_classes d filename label
      else if mode = ''inference'' then
        parse_function_inference fs decode_png num_classes filename label
      else Inl ValueError)"

subsection \<open>The notions of the specification\<close>

text \<open>
  A well-formed manifest line is a path without a space or a newline, one space, and a
  label written in decimal digits with an optional minus sign; \<open>written_label\<close> reads
  the integer so written. \<open>manifest_text\<close> is the text of a manifest with these lines;
  the last line ends with a newline when \<open>nl\<close> holds.
\<close>

definition decimal :: "string \<Rightarrow> int" where
  "decimal ds = foldl (\<lambda>a c. 10 * a + digit_val c) 0 ds"

definition written_label :: "string \<Rightarrow> int option" where
  "written_label t =
     (case t of
        [] \<Rightarrow> None
      | c # cs \<Rightarrow>
          if c = CHR ''-'' then
            (if cs \<noteq> [] \<and> list_all is_digit cs then Some (- decimal cs) else None)
          else if list_all is_digit t then Some (decimal t) else None)"

definition well_formed :: "string \<times> string \<Rightarrow> bool" where
  "well_formed e =
     (CHR '' '' \<notin> set (fst e) \<and> CHR 0x0A \<notin> set (fst e) \<and> written_label (snd e) \<noteq> None)"

fun manifest_text :: "(string \<times> string) list \<Rightarrow> bool \<Rightarrow> string" where
  "manifest_text [] nl = []"
| "manifest_text [e] nl = fst e @ '' '' @ snd e @ (if nl then [CHR 0x0A] else [])"
| "manifest_text (e # e' # es) nl =
     fst e @ '' '' @ snd e @ [CHR 0x0A] @ manifest_text (e' # es) nl"

definition line_of :: "string \<Rightarrow> string \<times> string \<Rightarrow> bool" where
  "line_of l e = (l = fst e @ '' '' @ snd e \<or> l = fst e @ '' '' @ snd e @ [CHR 0x0A])"













subsection \<open>Draws on a grid and a sample input\<close>

text \<open>
  \<open>grid_draws n (a, b, c)\<close> are the draws \<open>a / n\<close>, \<open>b / n\<close> and \<open>c / n\<close>, the
  same in every round. The sample input is a file that decodes to an image of one row
  and two pixels.
\<close>

definition grid_draws :: "nat \<Rightarrow> nat \<times> nat \<times> nat \<Rightarrow> draws" where
  "grid_draws n k =
     \<lparr>outer = real (fst k) / real n,
      gate = (\<lambda>_. real (fst (snd k)) / real n),
      inner = (\<lambda>_. real (snd (snd k)) / real n)\<rparr>"

definition sample_image :: "8 word tensor3" where
  "sample_image = [[[10, 20, 30], [40, 50, 60]]]"

definition sample_fs :: "string \<rightharpoonup> string" where
  "sample_fs = [''a.png'' \<mapsto> ''PNG'']"

definition sample_decoder :: "string \<Rightarrow> error + 8 word tensor3" where
  "sample_decoder bytes = (if bytes = ''PNG'' then Inr sample_image else Inl InvalidArgumentError)"

definition sample_draws :: draws where
  "sample_draws = \<lparr>outer = 0.3, gate = (\<lambda>k. 0.1), inner = (\<lambda>k. 0.2)\<rparr>"

definition sample_tensor :: "real tensor3" where
  "sample_tensor =
     reverse_channels
       (tf_subtract (resize_bilinear (to_float sample_image) 1 2 227 227) IMAGENET_MEAN)"

section \<open>The manifest loader\<close>

subsection \<open>Splitting, lines and integers\<close>


lemma py_split_no_sep: "sep \<notin> set p \<Longrightarrow> py_split sep p = [p]"
  by (induction p) (auto split: list.splits)

lemma py_split_append: "sep \<notin> set p \<Longrightarrow> py_split sep (p @ sep # r) = p # py_split sep r"
  by (induction p) (auto split: list.splits)

lemma readlines_line: "CHR 0x0A \<notin> set l \<Longrightarrow> readlines (l @ CHR 0x0A # r) = (l @ [CHR 0x0A]) # readlines r"
  by (induction l) (auto split: list.splits)

lemma readlines_last_Cons: "CHR 0x0A \<notin> set (c # l) \<Longrightarrow> readlines (c # l) = [c # l]"
  by (induction l arbitrary: c) (auto split: list.splits)

lemma readlines_last: "CHR 0x0A \<notin> set l \<Longrightarrow> l \<noteq> [] \<Longrightarrow> readlines l = [l]"
  by (cases l) (simp_all add: readlines_last_Cons del: readlines.simps)

lemma digits_acc_all: "list_all is_digit ds \<Longrightarrow> digits_acc a ds = Some (foldl (\<lambda>a c. 10 * a + digit_val c) a ds)"
  by (induction a ds rule: digits_acc.induct) auto

lemma strip_clean: "t \<noteq> [] \<Longrightarrow> \<not> is_space (hd t) \<Longrightarrow> \<not> is_space (last t) \<Longrightarrow> list_all is_space w \<Longrightarrow> strip (t @ w) = t"
proof -
  assume t: "t \<noteq> []" and h: "\<not> is_space (hd t)" and l: "\<not> is_space (last t)"
    and w: "list_all is_space w"
  have a: "dropWhile is_space (t @ w) = t @ w"
    using t h by (cases t) simp_all
  have b: "dropWhile is_space (rev w @ rev t) = dropWhile is_space (rev t)"
    using w by (intro dropWhile_append2) (simp add: list_all_iff)
  have c: "dropWhile is_space (rev t) = rev t"
    using t l by (cases "rev t") (simp_all add: last_rev [symmetric] hd_rev)
  show ?thesis
    by (simp add: strip_def a b c)
qed

lemma is_digit_not_space: "is_digit c \<Longrightarrow> \<not> is_space c"
  by (auto simp: is_digit_def is_space_def Let_def)

lemma is_digit_chars: "is_digit c \<Longrightarrow> c \<noteq> CHR '' '' \<and> c \<noteq> CHR 0x0A \<and> c \<noteq> CHR ''-'' \<and> c \<noteq> CHR ''+''"
  by (auto simp: is_digit_def)

lemma is_space_newline: "is_space (CHR 0x0A)" "\<not> is_space CHR ''-''" "\<not> is_space CHR ''+''"
  by (simp_all add: is_space_def)

lemma written_label_chars:
  assumes "written_label t = Some n"
  shows "CHR '' '' \<notin> set t" "CHR 0x0A \<notin> set t" "t \<noteq> []"
  using assms
  by (auto simp: written_label_def list_all_iff split: list.splits if_splits dest: is_digit_chars)

lemma py_int_digits:
  assumes "ds \<noteq> []" "list_all is_digit ds" "list_all is_space w"
  shows "py_int (ds @ w) = Some (decimal ds)"
proof -
  obtain c cs where ds: "ds = c # cs" using assms(1) by (cases ds) auto
  have d: "is_digit c" "is_digit (last ds)" using assms(1,2) ds by (auto simp: list_all_iff)
  have "strip (ds @ w) = ds"
    using assms d ds by (intro strip_clean) (auto dest: is_digit_not_space)
  then show ?thesis
    using d ds assms(2) digits_acc_all[OF assms(2), of 0] is_digit_chars[OF d(1)]
    by (simp add: py_int_def int_digits_def decimal_def)
qed

lemma py_int_neg_digits:
  assumes "ds \<noteq> []" "list_all is_digit ds" "list_all is_space w"
  shows "py_int (CHR ''-'' # ds @ w) = Some (- decimal ds)"
proof -
  obtain c cs where ds: "ds = c # cs" using assms(1) by (cases ds) auto
  have d: "is_digit c" "is_digit (last ds)" using assms(1,2) ds by (auto simp: list_all_iff)
  have "strip ((CHR ''-'' # ds) @ w) = CHR ''-'' # ds"
    using assms d ds by (intro strip_clean) (auto dest: is_digit_not_space simp: is_space_newline)
  then show ?thesis
    using d ds assms(2) digits_acc_all[OF assms(2), of 0]
    by (simp add: py_int_def int_digits_def decimal_def)
qed

lemma py_int_written:
  assumes "written_label t = Some n" "list_all is_space w"
  shows "py_int (t @ w) = Some n"
  using assms py_int_digits[of t w] py_int_neg_digits[of "tl t" w]
  by (auto simp: written_label_def split: list.splits if_splits)

lemma readlines_manifest:
  "list_all well_formed es \<Longrightarrow> list_all2 line_of (readlines (manifest_text es nl)) es"
proof (induction es nl rule: manifest_text.induct)
  case (1 nl)
  then show ?case by simp
next
  case (2 e nl)
  then have n: "CHR 0x0A \<notin> set (fst e @ '' '' @ snd e)"
    by (auto simp: well_formed_def dest: written_label_chars)
  show ?case
  proof (cases nl)
    case True
    then show ?thesis
      using readlines_line[OF n, of "[]"] by (simp add: line_of_def)
  next
    case False
    then show ?thesis
      using readlines_last[OF n] by (simp add: line_of_def)
  qed
next
  case (3 e e' es nl)
  then have n: "CHR 0x0A \<notin> set (fst e @ '' '' @ snd e)"
    by (auto simp: well_formed_def dest: written_label_chars)
  show ?case
    using readlines_line[OF n, of "manifest_text (e' # es) nl"] 3
    by (simp add: line_of_def)
qed

lemma read_loop_lines:
  "list_all2 line_of ls es \<Longrightarrow> list_all well_formed es \<Longrightarrow>
   read_loop dataroot ls ds =
     Inr \<lparr>img_paths = img_paths ds @ map (\<lambda>e. path_join dataroot (fst e)) es,
          labels = labels ds @ map (\<lambda>e. the (written_label (snd e))) es\<rparr>"
proof (induction ls es arbitrary: ds rule: list_all2_induct)
  case Nil
  then show ?case by simp
next
  case (Cons l ls e es)
  from Cons.prems obtain n where n: "written_label (snd e) = Some n"
    and p: "CHR '' '' \<notin> set (fst e)"
    by (auto simp: well_formed_def)
  obtain w where l: "l = fst e @ CHR '' '' # (snd e @ w)" and w: "list_all is_space w"
    and w': "CHR '' '' \<notin> set w"
    using Cons.hyps(1) by (auto simp: line_of_def is_space_newline)
  have "CHR '' '' \<notin> set (snd e @ w)"
    using written_label_chars(1)[OF n] w' by simp
  then have "py_split CHR '' '' (snd e @ w) = [snd e @ w]"
    by (rule py_split_no_sep)
  then have s: "py_split CHR '' '' l = [fst e, snd e @ w]"
    unfolding l by (simp only: py_split_append[OF p])
  have i: "py_int (snd e @ w) = Some n"
    by (rule py_int_written[OF n w])
  show ?case
    using Cons.IH[of "\<lparr>img_paths = img_paths ds @ [path_join dataroot (fst e)], labels = labels ds @ [n]\<rparr>"] Cons.prems
    by (simp add: s i n)
qed














subsection \<open>Loading a well-formed manifest\<close>

text \<open>
  Claim C2. A manifest whose lines are all well-formed, each a path, one space and a label
  written in decimal, loads without an error; the two lists have one item for each line,
  in the order of the lines; item \<open>i\<close> of the paths is the data root joined with the
  path of line \<open>i\<close>, and item \<open>i\<close> of the labels is the integer written on line
  \<open>i\<close>.
\<close>

theorem load_well_formed_manifest:
  assumes "fs txt_file = Some (manifest_text entries nl)"
    and "list_all well_formed entries"
  shows "\<exists>ds. read_txt_file fs txt_file dataroot = Inr ds
           \<and> length (img_paths ds) = length entries
           \<and> length (labels ds) = length entries
           \<and> (\<forall>i < length entries.
                 img_paths ds ! i = path_join dataroot (fst (entries ! i))
               \<and> written_label (snd (entries ! i)) = Some (labels ds ! i))"
proof -
  let ?ds = "\<lparr>img_paths = map (\<lambda>e. path_join dataroot (fst e)) entries,
              labels = map (\<lambda>e. the (written_label (snd e))) entries\<rparr>"
  have "list_all2 line_of (readlines (manifest_text entries nl)) entries"
    using assms(2) by (rule readlines_manifest)
  then have "read_txt_file fs txt_file dataroot = Inr ?ds"
    using read_loop_lines[OF _ assms(2), of _ dataroot "\<lparr>img_paths = [], labels = []\<rparr>"] assms(1)
    by (simp add: read_txt_file_def)
  moreover have "\<forall>i < length entries. written_label (snd (entries ! i)) \<noteq> None"
    using assms(2) by (simp add: list_all_length well_formed_def)
  ultimately show ?thesis
    by auto
qed

theorem load_well_formed_manifest_witness:
  "read_txt_file
     [''train.txt'' \<mapsto> manifest_text [(''cat1.png'', ''0''), (''dog1.png'', ''-12'')] False]
     ''train.txt'' ''/data''
   = Inr \<lparr>img_paths = [''/data/cat1.png'', ''/data/dog1.png''], labels = [0, - 12]\<rparr>"
proof -
  let ?es = "[(''cat1.png'', ''0''), (''dog1.png'', ''-12'')]"
  have wf: "list_all well_formed ?es"
    by (simp add: well_formed_def written_label_def is_digit_def)
  obtain ds where r: "read_txt_file [''train.txt'' \<mapsto> manifest_text ?es False] ''train.txt'' ''/data'' = Inr ds"
    and lp: "length (img_paths ds) = length ?es" and ll: "length (labels ds) = length ?es"
    and ix: "\<forall>i < length ?es. img_paths ds ! i = path_join ''/data'' (fst (?es ! i))
               \<and> written_label (snd (?es ! i)) = Some (labels ds ! i)"
    using load_well_formed_manifest[OF _ wf, of "[''train.txt'' \<mapsto> manifest_text ?es False]" "''train.txt''" False "''/data''"]
    by auto
  have i0: "img_paths ds ! 0 = path_join ''/data'' (fst (?es ! 0))
               \<and> written_label (snd (?es ! 0)) = Some (labels ds ! 0)"
    using ix by (elim allE[of _ 0]) simp
  have i1: "img_paths ds ! 1 = path_join ''/data'' (fst (?es ! 1))
               \<and> written_label (snd (?es ! 1)) = Some (labels ds ! 1)"
    using ix by (elim allE[of _ 1]) simp
  have "img_paths ds ! 0 = ''/data/cat1.png''" "img_paths ds ! 1 = ''/data/dog1.png''"
    using i0 i1 by (simp_all add: path_join_def)
  then have p: "img_paths ds = [''/data/cat1.png'', ''/data/dog1.png'']"
    using lp by (intro nth_equalityI) (auto simp: less_Suc_eq)
  have "labels ds ! 0 = 0" "labels ds ! 1 = - 12"
    using i0 i1 by (simp_all add: written_label_def decimal_def digit_val_def is_digit_def)
  then have l: "labels ds = [0, - 12]"
    using ll by (intro nth_equalityI) (auto simp: less_Suc_eq)
  show ?thesis
    using r p l by simp
qed

subsection \<open>When loading fails\<close>






section \<open>Shuffling\<close>

lemma shuffle_loop_ok:
  "\<forall>i \<in> set perm. i < length path \<and> i < length labs \<Longrightarrow>
   shuffle_loop perm path labs ds =
     Inr \<lparr>img_paths = img_paths ds @ map (\<lambda>i. path ! i) perm,
          labels = labels ds @ map (\<lambda>i. labs ! i) perm\<rparr>"
  by (induction perm arbitrary: ds) simp_all

lemma zip_as_map_nth:
  "length xs = length ys \<Longrightarrow> map (\<lambda>i. (xs ! i, ys ! i)) [0 ..< length ys] = zip xs ys"
  by (intro nth_equalityI) simp_all

lemma mset_map_permutation:
  assumes "mset perm = mset [0 ..< n]"
  shows "mset (map f perm) = mset (map f [0 ..< n])"
proof -
  have "mset (map f perm) = image_mset f (mset perm)" by simp
  also have "\<dots> = image_mset f (mset [0 ..< n])" using assms by simp
  finally show ?thesis by simp
qed

text \<open>
  Claim C3. For a data set with as many paths as labels and a permutation of the indices
  below its size, shuffling succeeds and reorders both lists by that permutation: the
  item at each position of the result is the path and the label of one input index, the
  multiset of (path, label) pairs is the one of the input, and both lengths are kept.
\<close>

theorem shuffle_same_permutation:
  assumes "length (img_paths ds) = length (labels ds)"
    and "mset permutation = mset [0 ..< length (labels ds)]"
  shows "\<exists>ds'. shuffle_lists permutation ds = Inr ds'
           \<and> img_paths ds' = map (\<lambda>i. img_paths ds ! i) permutation
           \<and> labels ds' = map (\<lambda>i. labels ds ! i) permutation
           \<and> zip (img_paths ds') (labels ds')
               = map (\<lambda>i. (img_paths ds ! i, labels ds ! i)) permutation
           \<and> mset (zip (img_paths ds') (labels ds')) = mset (zip (img_paths ds) (labels ds))
           \<and> length (img_paths ds') = length (img_paths ds)
           \<and> length (labels ds') = length (labels ds)"
proof -
  let ?n = "length (labels ds)"
  let ?ds' = "\<lparr>img_paths = map (\<lambda>i. img_paths ds ! i) permutation,
               labels = map (\<lambda>i. labels ds ! i) permutation\<rparr>"
  have s: "set permutation = {0 ..< ?n}"
    using assms(2) by (metis mset_eq_setD set_upt)
  have l: "length permutation = ?n"
    using assms(2) by (metis length_upt mset_eq_length minus_nat.diff_0)
  have r: "shuffle_lists permutation ds = Inr ?ds'"
    unfolding shuffle_lists_def using s assms(1) by (subst shuffle_loop_ok) auto
  have z: "zip (img_paths ?ds') (labels ?ds')
             = map (\<lambda>i. (img_paths ds ! i, labels ds ! i)) permutation"
    by (induction permutation) simp_all
  have "mset (map (\<lambda>i. (img_paths ds ! i, labels ds ! i)) permutation)
          = mset (map (\<lambda>i. (img_paths ds ! i, labels ds ! i)) [0 ..< ?n])"
    using assms(2) by (rule mset_map_permutation)
  then have m: "mset (zip (img_paths ?ds') (labels ?ds')) = mset (zip (img_paths ds) (labels ds))"
    using zip_as_map_nth[OF assms(1)] z by simp
  show ?thesis
    using r z m l assms(1) by (intro exI[of _ ?ds']) simp
qed

theorem shuffle_same_permutation_witness:
  "shuffle_lists [2, 0, 1] \<lparr>img_paths = [''a.png'', ''b.png'', ''c.png''], labels = [7, 8, 9]\<rparr>
     = Inr \<lparr>img_paths = [''c.png'', ''a.png'', ''b.png''], labels = [9, 7, 8]\<rparr>"
proof -
  let ?ds = "\<lparr>img_paths = [''a.png'', ''b.png'', ''c.png''], labels = [7, 8, 9]\<rparr>"
  have a: "length (img_paths ?ds) = length (labels ?ds)" by simp
  have "[0 ..< length (labels ?ds)] = [0, 1, 2]" by (simp add: upt_rec)
  then have b: "mset [2, 0, 1] = mset [0 ..< length (labels ?ds)]" by simp
  obtain ds' where "shuffle_lists [2, 0, 1] ?ds = Inr ds'"
    and "img_paths ds' = map (\<lambda>i. img_paths ?ds ! i) [2, 0, 1]"
    and "labels ds' = map (\<lambda>i. labels ?ds ! i) [2, 0, 1]"
    using shuffle_same_permutation[OF a b] by blast
  then show ?thesis by simp
qed

section \<open>The one-hot encoding\<close>

lemma one_hot_as_update:
  "l < n \<Longrightarrow> map (\<lambda>i. if l = i then 1 else (0::real)) [0 ..< n] = (replicate n 0)[l := 1]"
  by (intro nth_equalityI) (simp_all add: nth_list_update)

lemma one_hot_zero:
  "\<forall>i < n. k \<noteq> int i \<Longrightarrow> map (\<lambda>i. if k = int i then 1 else (0::real)) [0 ..< n] = replicate n 0"
  by (intro nth_equalityI) simp_all

lemma parse_inference_label:
  "parse_function_inference fs decode_png num_classes filename label = Inr (t, oh) \<Longrightarrow>
   tf_one_hot label num_classes = Inr oh"
  by (auto simp: parse_function_inference_def Let_def split: sum.splits)

lemma parse_train_label:
  "parse_function_train fs decode_png num_classes d filename label = Inr (t, oh) \<Longrightarrow>
   tf_one_hot label num_classes = Inr oh"
  by (auto simp: parse_function_train_def Let_def split: sum.splits)

lemma single_one:
  assumes "l < n"
  shows "filter (\<lambda>x. x = 1) ((replicate n (0::real))[l := 1]) = [1]"
proof -
  have "(replicate n (0::real))[l := 1] = replicate l 0 @ 1 # replicate (n - Suc l) 0"
    using assms by (simp add: upd_conv_take_nth_drop)
  then show ?thesis by simp
qed

text \<open>
  Claim C8. For a label \<open>l\<close> with \<open>0 \<le> l < num_classes\<close> the one-hot vector has
  length \<open>num_classes\<close>, the entry 1 at index \<open>l\<close> and 0 at every other index, so
  exactly one entry is 1; it is the vector that both parsing functions return.
\<close>

theorem one_hot_in_range:
  assumes "0 \<le> sint label" and "sint label < num_classes"
  shows "\<exists>v. tf_one_hot label num_classes = Inr v
           \<and> length v = nat num_classes
           \<and> v ! nat (sint label) = 1
           \<and> (\<forall>i < nat num_classes. i \<noteq> nat (sint label) \<longrightarrow> v ! i = 0)
           \<and> filter (\<lambda>x. x = 1) v = [1]
           \<and> (\<forall>fs decode_png filename t oh.
                 parse_function_inference fs decode_png num_classes filename label = Inr (t, oh)
                 \<longrightarrow> oh = v)
           \<and> (\<forall>fs decode_png d filename t oh.
                 parse_function_train fs decode_png num_classes d filename label = Inr (t, oh)
                 \<longrightarrow> oh = v)"
proof -
  let ?l = "nat (sint label)" and ?n = "nat num_classes"
  let ?v = "(replicate ?n (0::real))[?l := 1]"
  have l: "?l < ?n" using assms by simp
  have "(\<lambda>i. if sint label = int i then 1 else (0::real)) = (\<lambda>i. if ?l = i then 1 else 0)"
    using assms(1) by (intro ext) auto
  then have v: "tf_one_hot label num_classes = Inr ?v"
    using assms l one_hot_as_update[OF l] by (simp add: tf_one_hot_def)
  show ?thesis
    using v l parse_inference_label[where label = label and num_classes = num_classes]
      parse_train_label[where label = label and num_classes = num_classes]
    by (intro exI[of _ ?v]) (auto simp: nth_list_update single_one)
qed

text \<open>
  Claim C1, as amended. For a label outside \<open>[0, num_classes)\<close> the one-hot step raises
  nothing: it gives the vector of \<open>num_classes\<close> zeros, and that is the vector both
  parsing functions return. The claim as stated, that the step fails, is refuted at
  the labels 5 and -1 with three classes (at the end of the theory, where the sample
  input is at hand).
\<close>

theorem one_hot_out_of_range:
  assumes "0 \<le> num_classes" and "sint label < 0 \<or> num_classes \<le> sint label"
  shows "tf_one_hot label num_classes = Inr (replicate (nat num_classes) 0)
           \<and> (\<forall>fs decode_png filename t oh.
                 parse_function_inference fs decode_png num_classes filename label = Inr (t, oh)
                 \<longrightarrow> oh = replicate (nat num_classes) 0)
           \<and> (\<forall>fs decode_png d filename t oh.
                 parse_function_train fs decode_png num_classes d filename label = Inr (t, oh)
                 \<longrightarrow> oh = replicate (nat num_classes) 0)"
proof -
  have "\<forall>i < nat num_classes. sint label \<noteq> int i"
    using assms by auto
  then have v: "tf_one_hot label num_classes = Inr (replicate (nat num_classes) 0)"
    using assms(1) by (simp add: tf_one_hot_def one_hot_zero)
  show ?thesis
    using v parse_inference_label[where label = label and num_classes = num_classes]
      parse_train_label[where label = label and num_classes = num_classes]
    by auto
qed

theorem one_hot_out_of_range_witness:
  "tf_one_hot 5 3 = Inr (replicate (nat 3) 0)"
  using one_hot_out_of_range[of 3 5] by simp

theorem one_hot_in_range_witness:
  "\<exists>v. tf_one_hot 1 3 = Inr v \<and> length v = 3 \<and> v ! 1 = 1 \<and> v ! 0 = 0 \<and> v ! 2 = 0"
proof -
  have a: "0 \<le> sint (1 :: 32 word)" and b: "sint (1 :: 32 word) < 3" by simp_all
  show ?thesis
    using one_hot_in_range[OF a b] by auto
qed

section \<open>The parsing functions\<close>

subsection \<open>Training as gated inference\<close>

lemma augment_flip:
  "augment d x = (if gate d 0 < 1/4 \<and> inner d 0 < 1/2 then flip_left_right x else x)"
  by (simp add: augment_def augmentations_def flip_def)

lemma train_as_inference:
  "parse_function_train fs decode_png num_classes d filename label =
     (case parse_function_inference fs decode_png num_classes filename label of
        Inl e \<Rightarrow> Inl e
      | Inr (t, oh) \<Rightarrow> Inr (if outer d < 1/2 then augment d t else t, oh))"
  by (simp add: parse_function_train_def parse_function_inference_def Let_def split: sum.splits)

text \<open>
  Claim C5. In the mode \<^verbatim>\<open>inference\<close> the result does not depend on the random
  draws: for the same files, decoder, file name and label, any two sequences of draws
  give the same result, the one of \<^verbatim>\<open>_parse_function_inference\<close>, which takes no
  draw at all.
\<close>

theorem inference_deterministic:
  "parse_function ''inference'' fs decode_png num_classes d filename label
     = parse_function ''inference'' fs decode_png num_classes d' filename label
   \<and> parse_function ''inference'' fs decode_png num_classes d filename label
     = parse_function_inference fs decode_png num_classes filename label"
  by (simp add: parse_function_def)

theorem inference_deterministic_witness:
  "parse_function ''inference'' sample_fs sample_decoder 2 sample_draws ''a.png'' 1
     = parse_function ''inference'' sample_fs sample_decoder 2
         \<lparr>outer = 0.9, gate = (\<lambda>k. 0.8), inner = (\<lambda>k. 0.7)\<rparr> ''a.png'' 1"
  using inference_deterministic[of sample_fs sample_decoder 2 sample_draws "''a.png''" 1
      "\<lparr>outer = 0.9, gate = (\<lambda>k. 0.8), inner = (\<lambda>k. 0.7)\<rparr>"]
  by simp

text \<open>
  Claim C10. With flip as the only transform of the chain, whatever the draws are, the
  result of the training function is the result of the inference function on the same
  input, or that result with its tensor mirrored left to right (an error of the
  inference function is the same error).
\<close>

theorem train_flip_only_two_outputs:
  "parse_function_train fs decode_png num_classes d filename label
     = parse_function_inference fs decode_png num_classes filename label
   \<or> parse_function_train fs decode_png num_classes d filename label
     = map_sum id (apfst flip_left_right)
         (parse_function_inference fs decode_png num_classes filename label)"
  by (auto simp: train_as_inference augment_flip split: sum.splits)

lemma card_box: "card ({..< a} \<times> {..< b} \<times> {..< (c::nat)}) = a * b * c"
  by (simp add: card_cartesian_product)

lemma train_gated:
  "parse_function_train fs decode_png num_classes d filename label =
     (case parse_function_inference fs decode_png num_classes filename label of
        Inl e \<Rightarrow> Inl e
      | Inr (t, oh) \<Rightarrow>
          Inr (if outer d < 0.5 \<and> gate d 0 < 0.25 \<and> inner d 0 < 0.5 then flip_left_right t else t,
               oh))"
  by (auto simp: train_as_inference augment_flip split: sum.splits)


lemma grid_half: "0 < m \<Longrightarrow> (real a / real (4 * m) < 0.5) = (a < 2 * m)"
  by (auto simp: field_simps)

lemma grid_quarter: "0 < m \<Longrightarrow> (real a / real (4 * m) < 0.25) = (a < m)"
  by (auto simp: field_simps)

lemma flipped_draws:
  assumes "parse_function_inference fs decode_png num_classes filename label = Inr (t, oh)"
    and "flip_left_right t \<noteq> t" and "0 < m"
  shows "parse_function_train fs decode_png num_classes (grid_draws (4 * m) (a, b, c)) filename label
           \<noteq> Inr (t, oh) \<longleftrightarrow> a < 2 * m \<and> b < m \<and> c < 2 * m"
proof -
  let ?d = "grid_draws (4 * m) (a, b, c)"
  have o: "outer ?d < 0.5 \<longleftrightarrow> a < 2 * m"
    using grid_half[OF assms(3)] by (simp add: grid_draws_def)
  have g: "gate ?d 0 < 0.25 \<longleftrightarrow> b < m"
    using grid_quarter[OF assms(3)] by (simp add: grid_draws_def)
  have i: "inner ?d 0 < 0.5 \<longleftrightarrow> c < 2 * m"
    using grid_half[OF assms(3)] by (simp add: grid_draws_def)
  have "parse_function_train fs decode_png num_classes ?d filename label =
          Inr (if outer ?d < 0.5 \<and> gate ?d 0 < 0.25 \<and> inner ?d 0 < 0.5
               then flip_left_right t else t, oh)"
    by (simp only: train_gated assms(1) sum.case prod.case)
  then show ?thesis
    using assms(2) by (simp only: o g i) auto
qed

lemma flipped_count:
  assumes "parse_function_inference fs decode_png num_classes filename label = Inr (t, oh)"
    and "flip_left_right t \<noteq> t" and "0 < m"
  shows "16 * card {k \<in> {..< 4 * m} \<times> {..< 4 * m} \<times> {..< 4 * m}.
                parse_function_train fs decode_png num_classes (grid_draws (4 * m) k) filename label
                  \<noteq> Inr (t, oh)}
           = (4 * m) ^ 3"
proof -
  have "{k \<in> {..< 4 * m} \<times> {..< 4 * m} \<times> {..< 4 * m}.
                parse_function_train fs decode_png num_classes (grid_draws (4 * m) k) filename label
                  \<noteq> Inr (t, oh)} = {..< 2 * m} \<times> {..< m} \<times> {..< 2 * m}"
    (is "?A = ?B")
  proof (rule set_eqI)
    fix k :: "nat \<times> nat \<times> nat"
    obtain a b c where k: "k = (a, b, c)" by (cases k) auto
    show "k \<in> ?A \<longleftrightarrow> k \<in> ?B"
      unfolding k using flipped_draws[OF assms, of a b c] by auto
  qed
  then show ?thesis
    by (simp only: card_box) (simp add: power3_eq_cube)
qed

subsection \<open>Shapes\<close>

lemma lower_lt:
  assumes "0 < n" "i < m"
  shows "lower n m i < n"
proof -
  have "real i * (real n / real m) < real n"
    using assms by (simp add: field_simps)
  moreover have "0 \<le> real i * (real n / real m)"
    by simp
  ultimately show ?thesis
    unfolding lower_def src_coord_def by linarith
qed

lemma upper_lt: "0 < n \<Longrightarrow> upper n m i < n"
  by (simp add: upper_def)

lemma length_mix: "length (mix a b t) = min (length a) (length b)"
  by (simp add: mix_def)

lemma has_shape_nth:
  assumes "has_shape h w c x" "i < h" "j < w"
  shows "length (x ! i ! j) = c"
proof -
  have r: "x ! i \<in> set x" using assms(1,2) by (simp add: has_shape_def)
  then have "length (x ! i) = w" using assms(1) by (simp add: has_shape_def)
  then have "x ! i ! j \<in> set (x ! i)" using assms(3) by simp
  then show ?thesis using assms(1) r by (simp add: has_shape_def)
qed

lemma has_shape_resize:
  assumes "has_shape h w c img" "0 < h" "0 < w"
  shows "has_shape out_h out_w c (resize_bilinear img h w out_h out_w)"
proof -
  have "length (mix (mix (img ! lower h out_h y ! lower w out_w x)
                  (img ! lower h out_h y ! upper w out_w x) (lerp w out_w x))
             (mix (img ! upper h out_h y ! lower w out_w x)
                  (img ! upper h out_h y ! upper w out_w x) (lerp w out_w x))
             (lerp h out_h y)) = c"
    if "y < out_h" "x < out_w" for x y
    using that assms
    by (simp add: length_mix has_shape_nth[OF assms(1)] lower_lt upper_lt)
  then show ?thesis
    by (auto simp: has_shape_def resize_bilinear_def)
qed

lemma has_shape_to_float: "has_shape h w c img \<Longrightarrow> has_shape h w c (to_float img)"
  by (auto simp: has_shape_def to_float_def)

lemma has_shape_subtract:
  "has_shape h w 3 x \<Longrightarrow> has_shape h w 3 (tf_subtract x IMAGENET_MEAN)"
  by (auto simp: has_shape_def tf_subtract_def IMAGENET_MEAN_def)

lemma has_shape_reverse: "has_shape h w c x \<Longrightarrow> has_shape h w c (reverse_channels x)"
  by (auto simp: has_shape_def reverse_channels_def)

lemma has_shape_flip: "has_shape h w c x \<Longrightarrow> has_shape h w c (flip_left_right x)"
  by (auto simp: has_shape_def flip_left_right_def)

lemma resize_images_ok:
  assumes "has_shape h w c img" "0 < h" "0 < w"
  shows "resize_images img out_h out_w = Inr (resize_bilinear (to_float img) h w out_h out_w)"
proof -
  obtain row rest where img: "img = row # rest"
    using assms(1,2) by (cases img) (auto simp: has_shape_def)
  have "length row = w" using assms(1) img by (simp add: has_shape_def)
  then show ?thesis
    using assms img by (auto simp: resize_images_def has_shape_def)
qed

lemma inference_ok:
  assumes "fs filename = Some bytes" "decode_png bytes = Inr img"
    and "has_shape h w 3 img" "0 < h" "0 < w"
    and "tf_one_hot label num_classes = Inr oh"
  shows "parse_function_inference fs decode_png num_classes filename label =
           Inr (reverse_channels
                  (tf_subtract (resize_bilinear (to_float img) h w 227 227) IMAGENET_MEAN), oh)"
  using assms(1,2,6) resize_images_ok[OF assms(3,4,5), of 227 227]
  by (simp add: parse_function_inference_def tf_read_file_def)

lemma has_shape_normalised:
  assumes "has_shape h w 3 img" "0 < h" "0 < w"
  shows "has_shape 227 227 3
           (reverse_channels
              (tf_subtract (resize_bilinear (to_float img) h w 227 227) IMAGENET_MEAN))"
  by (intro has_shape_reverse has_shape_subtract has_shape_resize has_shape_to_float assms)

text \<open>
  Claim C6. For a file that decodes to an image of any height and width above zero, with
  three channels, both parsing functions return a tensor of shape 227 by 227 by 3.
\<close>

theorem output_shape:
  assumes "fs filename = Some bytes" and "decode_png bytes = Inr img"
    and "has_shape h w 3 img" and "0 < h" and "0 < w" and "0 \<le> num_classes"
  shows "(\<exists>t oh. parse_function_inference fs decode_png num_classes filename label = Inr (t, oh)
                  \<and> has_shape 227 227 3 t)
       \<and> (\<exists>t oh. parse_function_train fs decode_png num_classes d filename label = Inr (t, oh)
                  \<and> has_shape 227 227 3 t)"
proof -
  obtain oh where oh: "tf_one_hot label num_classes = Inr oh"
    using assms(6) by (simp add: tf_one_hot_def)
  let ?t = "reverse_channels
              (tf_subtract (resize_bilinear (to_float img) h w 227 227) IMAGENET_MEAN)"
  have i: "parse_function_inference fs decode_png num_classes filename label = Inr (?t, oh)"
    using assms(1-5) oh by (rule inference_ok)
  have s: "has_shape 227 227 3 ?t"
    using assms(3-5) by (rule has_shape_normalised)
  have "parse_function_train fs decode_png num_classes d filename label =
          Inr (if outer d < 0.5 \<and> gate d 0 < 0.25 \<and> inner d 0 < 0.5
               then flip_left_right ?t else ?t, oh)"
    by (simp only: train_gated i sum.case prod.case)
  then show ?thesis
    using i s has_shape_flip[OF s] by auto
qed

subsection \<open>Mean subtraction and channel order\<close>

lemma mix_same: "mix p p t = p"
  by (simp add: mix_def zip_same_conv_map comp_def)

lemma resize_constant:
  assumes "0 < h" "0 < w"
  shows "resize_bilinear (replicate h (replicate w p)) h w out_h out_w
           = replicate out_h (replicate out_w p)"
proof -
  have "replicate h (replicate w p) ! lower h out_h y ! lower w out_w x = p"
    "replicate h (replicate w p) ! lower h out_h y ! upper w out_w x = p"
    "replicate h (replicate w p) ! upper h out_h y ! lower w out_w x = p"
    "replicate h (replicate w p) ! upper h out_h y ! upper w out_w x = p"
    if "y < out_h" "x < out_w" for x y
    using that assms by (simp_all add: lower_lt upper_lt)
  then show ?thesis
    unfolding resize_bilinear_def
    by (intro nth_equalityI) (simp_all add: mix_same)
qed

lemma to_float_constant:
  "to_float (replicate h (replicate w p)) = replicate h (replicate w (map (\<lambda>v. real (unat v)) p))"
  by (simp add: to_float_def)

lemma center_reverse_constant:
  "reverse_channels (tf_subtract (replicate h (replicate w [r, g, b])) IMAGENET_MEAN)
     = replicate h (replicate w [b - 103.939, g - 116.779, r - 123.68])"
  by (simp add: reverse_channels_def tf_subtract_def IMAGENET_MEAN_def)

lemma center_reverse_nth:
  assumes "y < length x" "i < length (x ! y)" "x ! y ! i = [r, g, b]"
  shows "reverse_channels (tf_subtract x IMAGENET_MEAN) ! y ! i
           = [b - 103.939, g - 116.779, r - 123.68]"
  using assms by (simp add: reverse_channels_def tf_subtract_def IMAGENET_MEAN_def)

text \<open>
  Claim C7. The tensor of the inference function is the resized image minus the mean
  vector (123.68, 116.779, 103.939), in the order red, green, blue, with every pixel then
  reversed; the training function passes the same tensor to its augmentation. A pixel
  \<open>(r, g, b)\<close> of the resized image becomes \<open>(b - 103.939, g - 116.779, r - 123.68)\<close>,
  so an image of one colour gives a tensor of one colour, and a float image of the mean
  colour gives zeros at every pixel. (A decoded image has integer entries, so the mean
  colour itself exists only as a float image.)
\<close>

theorem mean_subtraction_bgr:
  assumes "fs filename = Some bytes" and "decode_png bytes = Inr img"
    and "has_shape h w 3 img" and "0 < h" and "0 < w"
    and "tf_one_hot label num_classes = Inr oh"
  shows "\<exists>t. parse_function_inference fs decode_png num_classes filename label = Inr (t, oh)
           \<and> parse_function_train fs decode_png num_classes d filename label
               = Inr (if outer d < 0.5 then augment d t else t, oh)
           \<and> t = reverse_channels
                   (tf_subtract (resize_bilinear (to_float img) h w 227 227) IMAGENET_MEAN)
           \<and> (\<forall>y < 227. \<forall>x < 227. \<forall>r g b.
                 resize_bilinear (to_float img) h w 227 227 ! y ! x = [r, g, b]
                 \<longrightarrow> t ! y ! x = [b - 103.939, g - 116.779, r - 123.68])
           \<and> (\<forall>r g b. img = replicate h (replicate w [r, g, b])
                 \<longrightarrow> t = replicate 227 (replicate 227
                       [real (unat b) - 103.939, real (unat g) - 116.779, real (unat r) - 123.68]))
           \<and> reverse_channels
                (tf_subtract (resize_bilinear (replicate h (replicate w IMAGENET_MEAN)) h w 227 227)
                   IMAGENET_MEAN)
               = replicate 227 (replicate 227 [0, 0, 0])"
proof -
  let ?r = "resize_bilinear (to_float img) h w 227 227"
  let ?t = "reverse_channels (tf_subtract ?r IMAGENET_MEAN)"
  have i: "parse_function_inference fs decode_png num_classes filename label = Inr (?t, oh)"
    using assms by (rule inference_ok)
  have tr: "parse_function_train fs decode_png num_classes d filename label
               = Inr (if outer d < 0.5 then augment d ?t else ?t, oh)"
    using i by (simp add: train_as_inference)
  have s: "has_shape 227 227 3 ?r"
    using assms(3-5) by (intro has_shape_resize has_shape_to_float)
  have px: "?t ! y ! x = [b - 103.939, g - 116.779, r - 123.68]"
    if "y < 227" "x < 227" "?r ! y ! x = [r, g, b]" for y x r g b
  proof -
    have "length ?r = 227" using s by (simp add: has_shape_def)
    moreover have "length (?r ! y) = 227"
      using s that(1) by (simp add: has_shape_def)
    ultimately show ?thesis
      using that by (intro center_reverse_nth) simp_all
  qed
  have c: "?t = replicate 227 (replicate 227
             [real (unat b) - 103.939, real (unat g) - 116.779, real (unat r) - 123.68])"
    if "img = replicate h (replicate w [r, g, b])" for r g b
    using assms(4,5)
    by (simp only: that to_float_constant resize_constant list.map center_reverse_constant)
  have m: "reverse_channels
             (tf_subtract (resize_bilinear (replicate h (replicate w IMAGENET_MEAN)) h w 227 227)
                IMAGENET_MEAN)
           = replicate 227 (replicate 227 [0, 0, 0])"
    using assms(4,5) center_reverse_constant[of 227 227 "123.68" "116.779" "103.939"]
    by (simp add: resize_constant) (simp add: IMAGENET_MEAN_def)
  show ?thesis
    using i tr px c m by (intro exI[of _ ?t]) blast
qed

subsection \<open>A sample image\<close>

lemma resize_first_pixel: "resize_bilinear (to_float [[[10, 20, 30], [40, 50, 60]]]) 1 2 227 227 ! 0 ! 0 = [10, 20, 30]"
  by (simp add: resize_bilinear_def to_float_def lower_def upper_def lerp_def src_coord_def mix_def)

lemma resize_last_pixel: "resize_bilinear (to_float [[[10, 20, 30], [40, 50, 60]]]) 1 2 227 227 ! 0 ! 226 = [40, 50, 60]"
  by (simp add: resize_bilinear_def to_float_def lower_def upper_def lerp_def src_coord_def mix_def)

lemma flip_fixed_ends:
  assumes "flip_left_right t = t" "t \<noteq> []" "t ! 0 \<noteq> []"
  shows "t ! 0 ! 0 = t ! 0 ! (length (t ! 0) - 1)"
proof -
  have "rev (t ! 0) = t ! 0"
    using assms(1,2) by (cases t) (simp_all add: flip_left_right_def)
  then have "t ! 0 ! 0 = rev (t ! 0) ! 0" by simp
  also have "\<dots> = t ! 0 ! (length (t ! 0) - 1)"
    using assms(3) by (simp add: rev_nth)
  finally show ?thesis .
qed

lemma sample_first_pixel: "resize_bilinear (to_float sample_image) 1 2 227 227 ! 0 ! 0 = [10, 20, 30]"
  unfolding sample_image_def by (rule resize_first_pixel)

lemma sample_last_pixel: "resize_bilinear (to_float sample_image) 1 2 227 227 ! 0 ! 226 = [40, 50, 60]"
  unfolding sample_image_def by (rule resize_last_pixel)

lemma sample_shape: "has_shape 1 2 3 sample_image"
  by (simp add: sample_image_def has_shape_def)

lemma sample_inference:
  "parse_function_inference sample_fs sample_decoder 2 ''a.png'' 1 = Inr (sample_tensor, [0, 1])"
proof -
  have "tf_one_hot 1 2 = Inr [0, 1]"
    by (simp add: tf_one_hot_def upt_rec)
  then show ?thesis
    unfolding sample_tensor_def
    by (intro inference_ok[where bytes = "''PNG''"] sample_shape)
       (simp_all add: sample_fs_def sample_decoder_def)
qed

lemma sample_not_symmetric: "flip_left_right sample_tensor \<noteq> sample_tensor"
proof
  assume a: "flip_left_right sample_tensor = sample_tensor"
  have s: "has_shape 227 227 3 sample_tensor"
    unfolding sample_tensor_def using sample_shape by (intro has_shape_normalised) simp_all
  then have l: "length sample_tensor = 227" "length (sample_tensor ! 0) = 227"
    by (simp_all add: has_shape_def)
  have "has_shape 227 227 3 (resize_bilinear (to_float sample_image) 1 2 227 227)"
    using sample_shape by (intro has_shape_resize has_shape_to_float) simp_all
  then have rl: "0 < length (resize_bilinear (to_float sample_image) 1 2 227 227)"
    and rr: "0 < length (resize_bilinear (to_float sample_image) 1 2 227 227 ! 0)"
    and rr': "226 < length (resize_bilinear (to_float sample_image) 1 2 227 227 ! 0)"
    by (simp_all add: has_shape_def)
  have "sample_tensor \<noteq> []" "sample_tensor ! 0 \<noteq> []"
    using l by auto
  then have "sample_tensor ! 0 ! 0 = sample_tensor ! 0 ! (length (sample_tensor ! 0) - 1)"
    by (rule flip_fixed_ends[OF a])
  then have "sample_tensor ! 0 ! 0 = sample_tensor ! 0 ! 226"
    by (simp add: l)
  moreover have "sample_tensor ! 0 ! 0 = [30 - 103.939, 20 - 116.779, 10 - 123.68]"
    unfolding sample_tensor_def
    by (rule center_reverse_nth[OF rl rr]) (rule sample_first_pixel)
  moreover have "sample_tensor ! 0 ! 226 = [60 - 103.939, 50 - 116.779, 40 - 123.68]"
    unfolding sample_tensor_def
    by (rule center_reverse_nth[OF rl rr']) (rule sample_last_pixel)
  ultimately show False by simp
qed

text \<open>
  Claim C4. The training function applies three gates in a chain: the augmentation runs
  when the outer draw is below 0.5; in it the transform, flip, is applied when the gate
  draw is below 0.25; and flip mirrors when its own draw is below 0.5. The tensor is
  mirrored exactly when all three fire and is the unaugmented tensor otherwise. Over
  draws that are uniform on a grid of step \<open>1 / (4 * m)\<close>, one triple of draws in
  sixteen changes the result of an image that is not its own mirror image: 6.25 percent.
\<close>

theorem train_three_gates:
  "parse_function_train fs decode_png num_classes d filename label =
     (case parse_function_inference fs decode_png num_classes filename label of
        Inl e \<Rightarrow> Inl e
      | Inr (t, oh) \<Rightarrow>
          Inr (if outer d < 0.5 \<and> gate d 0 < 0.25 \<and> inner d 0 < 0.5 then flip_left_right t else t,
               oh))
   \<and> (parse_function_inference fs decode_png num_classes filename label = Inr (t, oh)
        \<longrightarrow> parse_function_train fs decode_png num_classes d filename label
              = Inr (if outer d < 0.5 then augment d t else t, oh))
   \<and> augment d x = (if gate d 0 < 0.25 then flip (inner d 0) x else x)
   \<and> flip u x = (if u < 0.5 then flip_left_right x else x)
   \<and> (parse_function_inference fs decode_png num_classes filename label = Inr (t, oh)
        \<and> flip_left_right t \<noteq> t \<and> 0 < m
        \<longrightarrow> 16 * card {k \<in> {..< 4 * m} \<times> {..< 4 * m} \<times> {..< 4 * m}.
                    parse_function_train fs decode_png num_classes (grid_draws (4 * m) k)
                      filename label \<noteq> Inr (t, oh)}
              = (4 * m) ^ 3)"
proof -
  have a: "augment d x = (if gate d 0 < 0.25 then flip (inner d 0) x else x)"
    by (simp add: augment_def augmentations_def)
  have f: "flip u x = (if u < 0.5 then flip_left_right x else x)"
    by (simp add: flip_def)
  have g: "parse_function_train fs decode_png num_classes d filename label =
     (case parse_function_inference fs decode_png num_classes filename label of
        Inl e \<Rightarrow> Inl e
      | Inr (t, oh) \<Rightarrow>
          Inr (if outer d < 0.5 \<and> gate d 0 < 0.25 \<and> inner d 0 < 0.5 then flip_left_right t else t,
               oh))"
    by (auto simp: train_as_inference augment_flip split: sum.splits)
  have o: "parse_function_train fs decode_png num_classes d filename label
              = Inr (if outer d < 0.5 then augment d t else t, oh)"
    if "parse_function_inference fs decode_png num_classes filename label = Inr (t, oh)"
    using that by (simp add: train_as_inference)
  show ?thesis
    using a f g o flipped_count[of fs decode_png num_classes filename label t oh m]
    by blast
qed

theorem train_three_gates_witness:
  "parse_function_train sample_fs sample_decoder 2 sample_draws ''a.png'' 1
     = Inr (flip_left_right sample_tensor, [0, 1])
   \<and> 16 * card {k \<in> {..< 4} \<times> {..< 4} \<times> {..< 4}.
                 parse_function_train sample_fs sample_decoder 2 (grid_draws 4 k) ''a.png'' 1
                   \<noteq> Inr (sample_tensor, [0, 1])}
       = (64 :: nat)"
proof -
  have d: "outer sample_draws < 0.5 \<and> gate sample_draws 0 < 0.25 \<and> inner sample_draws 0 < 0.5"
    by (simp add: sample_draws_def)
  note t = train_three_gates[of sample_fs sample_decoder 2 _ "''a.png''" 1 sample_tensor "[0, 1]" _ _ 1]
  have "parse_function_train sample_fs sample_decoder 2 sample_draws ''a.png'' 1
     = Inr (flip_left_right sample_tensor, [0, 1])"
    using t[of sample_draws] d by (simp add: sample_inference)
  moreover have "16 * card {k \<in> {..< 4} \<times> {..< 4} \<times> {..< 4}.
                 parse_function_train sample_fs sample_decoder 2 (grid_draws 4 k) ''a.png'' 1
                   \<noteq> Inr (sample_tensor, [0, 1])} = (64 :: nat)"
  proof -
    have "parse_function_inference sample_fs sample_decoder 2 ''a.png'' 1
            = Inr (sample_tensor, [0, 1])
          \<and> flip_left_right sample_tensor \<noteq> sample_tensor \<and> (0 :: nat) < 1"
      using sample_inference sample_not_symmetric by simp
    then have "16 * card {k \<in> {..< 4 * 1} \<times> {..< 4 * 1} \<times> {..< 4 * 1}.
                 parse_function_train sample_fs sample_decoder 2 (grid_draws (4 * 1) k) ''a.png'' 1
                   \<noteq> Inr (sample_tensor, [0, 1])} = (4 * 1) ^ 3"
      using t[of sample_draws] by blast
    then show ?thesis
      by (simp only: mult_1_right) simp
  qed
  ultimately show ?thesis by simp
qed

theorem output_shape_witness:
  "(\<exists>t oh. parse_function_inference sample_fs sample_decoder 2 ''a.png'' 1 = Inr (t, oh)
             \<and> has_shape 227 227 3 t)
   \<and> (\<exists>t oh. parse_function_train sample_fs sample_decoder 2 sample_draws ''a.png'' 1 = Inr (t, oh)
             \<and> has_shape 227 227 3 t)"
  using output_shape[of sample_fs "''a.png''" "''PNG''" sample_decoder sample_image 1 2 2 1
      sample_draws] sample_shape
  by (simp add: sample_fs_def sample_decoder_def)

theorem mean_subtraction_bgr_witness:
  "parse_function_inference sample_fs (\<lambda>bytes. Inr [[[1, 2, 3]]]) 2 ''a.png'' 1
     = Inr (replicate 227 (replicate 227 [3 - 103.939, 2 - 116.779, 1 - 123.68]), [0, 1])
   \<and> reverse_channels
        (tf_subtract (resize_bilinear [[IMAGENET_MEAN]] 1 1 227 227) IMAGENET_MEAN)
       = replicate 227 (replicate 227 [0, 0, 0])"
proof -
  have o: "tf_one_hot 1 2 = Inr [0, 1]"
    by (simp add: tf_one_hot_def upt_rec)
  have s: "has_shape 1 1 3 [[[1, 2, 3 :: 8 word]]]"
    by (simp add: has_shape_def)
  have f: "sample_fs ''a.png'' = Some ''PNG''"
    by (simp add: sample_fs_def)
  show ?thesis
    using mean_subtraction_bgr[where fs = sample_fs and filename = "''a.png''"
        and bytes = "''PNG''" and decode_png = "\<lambda>bytes. Inr [[[1, 2, 3]]]"
        and img = "[[[1, 2, 3]]]" and h = 1 and w = 1 and label = 1 and num_classes = 2
        and oh = "[0, 1]" and d = sample_draws] f s o
    by auto
qed

text \<open>
  The labels 5 and -1 with three classes: the one-hot step returns three zeros, and the
  inference function returns them with the tensor of the sample image.
\<close>

theorem one_hot_out_of_range_counterexample:
  "tf_one_hot 5 3 = Inr [0, 0, 0]
   \<and> tf_one_hot (- 1) 3 = Inr [0, 0, 0]
   \<and> parse_function_inference sample_fs sample_decoder 3 ''a.png'' 5
       = Inr (sample_tensor, [0, 0, 0])"
proof -
  have a: "tf_one_hot 5 3 = Inr [0, 0, 0]" and b: "tf_one_hot (- 1) 3 = Inr [0, 0, 0]"
    by (simp_all add: tf_one_hot_def upt_rec)
  have "parse_function_inference sample_fs sample_decoder 3 ''a.png'' 5
          = Inr (sample_tensor, [0, 0, 0])"
    unfolding sample_tensor_def
    by (intro inference_ok[where bytes = "''PNG''"] sample_shape a)
       (simp_all add: sample_fs_def sample_decoder_def)
  then show ?thesis
    using a b by simp
qed

end
